theory Spec2Isabelle
  imports Main "HOL-Library.Word"
begin

section \<open>The Drive plugin: retrying sync runner and local-folder ingestion\<close>

text \<open>
  A shallow embedding of \<^verbatim>\<open>src/plugins/drive.ts\<close> (class \<^verbatim>\<open>DrivePlugin\<close>) and of the
  table declaration \<^verbatim>\<open>fileMetadataTable\<close> it writes to. Promises are modelled by their
  outcome: a rejected promise (a thrown error) is \<open>Inl e\<close>, a resolved one is \<open>Inr v\<close>.
  Effects (database rows, tasks handed to the runtime, log calls, timers, file reads) are
  explicit fields of a state that every operation takes and returns.
\<close>

subsection \<open>Errors and JavaScript return values\<close>

text \<open>A thrown JavaScript error, identified by its message.\<close>

datatype error = Error string

text \<open>
  What a caller of a JavaScript function receives when the function returns normally:
  a bare \<^verbatim>\<open>return;\<close> (and falling off the end of the body) yields \<^verbatim>\<open>undefined\<close>.
\<close>

datatype 'r jsval = Undefined | Val 'r

subsection \<open>\<^verbatim>\<open>syncWithRetry\<close> (drive.ts, lines 68 to 86)\<close>

text \<open>
  The effects of the runner, in the order they happen: a call of
  \<^verbatim>\<open>syncGoogleDriveChanges(runtime)\<close>, the three log calls, and the timer
  \<^verbatim>\<open>setTimeout(resolve, 1000 * Math.pow(2, attempts))\<close>, recorded with the delay in
  milliseconds that is handed to \<^verbatim>\<open>setTimeout\<close>.
\<close>

datatype 'r sync_event =
    SyncCall
  | LogSyncCompleted 'r
  | LogAttemptFailed nat error
  | LogMaxRetriesReached
  | Sleep nat

text \<open>
  \<^verbatim>\<open>syncGoogleDriveChanges\<close> lives in \<^verbatim>\<open>src/routes/controller\<close> and is not part of the
  plugin: it is a parameter \<open>sync\<close>, a fallible operation on the runtime \<open>'w\<close> that
  returns its outcome and the runtime it leaves behind. \<open>maxRetries\<close> is a JavaScript
  number, here an integer; \<open>attempts\<close> counts up from 0.

  The loop \<^verbatim>\<open>while (attempts < maxRetries)\<close>: a successful call logs the result and
  returns (nothing); a failed call increments \<open>attempts\<close>, logs, rethrows when
  \<^verbatim>\<open>attempts === maxRetries\<close>, and otherwise sleeps and goes round again. When the loop
  condition is false the function body ends, which returns \<^verbatim>\<open>undefined\<close>.
\<close>

function syncLoop ::
  "('w \<Rightarrow> (error + 'r) \<times> 'w) \<Rightarrow> int \<Rightarrow> nat \<Rightarrow> 'w \<Rightarrow> 'r sync_event list
     \<Rightarrow> (error + 'r jsval) \<times> 'w \<times> 'r sync_event list" where
  "syncLoop sync maxRetries attempts w tr =
     (if int attempts < maxRetries then
        (case sync w of
           (Inr result, w') \<Rightarrow>
             (Inr Undefined, w', tr @ [SyncCall, LogSyncCompleted result])
         | (Inl err, w') \<Rightarrow>
             (let attempts' = attempts + 1;
                  tr' = tr @ [SyncCall, LogAttemptFailed attempts' err]
              in if int attempts' = maxRetries
                 then (Inl err, w', tr' @ [LogMaxRetriesReached])
                 else syncLoop sync maxRetries attempts' w'
                        (tr' @ [Sleep (1000 * 2 ^ attempts')])))
      else (Inr Undefined, w, tr))"
  by pat_completeness auto
termination
  by (relation "measure (\<lambda>(sync, maxRetries, attempts, w, tr). nat (maxRetries - int attempts))")
     auto

declare syncLoop.simps [simp del]

definition syncWithRetry ::
  "('w \<Rightarrow> (error + 'r) \<times> 'w) \<Rightarrow> int \<Rightarrow> 'w
     \<Rightarrow> (error + 'r jsval) \<times> 'w \<times> 'r sync_event list" where
  "syncWithRetry sync maxRetries w = syncLoop sync maxRetries 0 w []"

text \<open>The number of times the wrapped operation was invoked, read off the effects.\<close>

definition invocations :: "'r sync_event list \<Rightarrow> nat" where
  "invocations tr = length (filter (\<lambda>ev. ev = SyncCall) tr)"

text \<open>The delays handed to the timer, in order.\<close>

fun delays :: "'r sync_event list \<Rightarrow> nat list" where
  "delays [] = []"
| "delays (Sleep d # evs) = d # delays evs"
| "delays (ev # evs) = delays evs"

subsection \<open>The table \<^verbatim>\<open>biograph.file_metadata\<close>\<close>

text \<open>
  One row of \<^verbatim>\<open>fileMetadataTable\<close>, a field per column: \<^verbatim>\<open>id\<close> (of type \<^verbatim>\<open>uuid\<close>, see
  below), \<^verbatim>\<open>hash\<close> (the primary key), \<^verbatim>\<open>fileName\<close>, \<^verbatim>\<open>fileSize\<close> (nullable),
  \<^verbatim>\<open>createdAt\<close> and \<^verbatim>\<open>modifiedAt\<close> (timestamps, in milliseconds), \<^verbatim>\<open>tags\<close> (nullable
  array).
\<close>

record file_metadata =
  col_id :: string
  col_hash :: string
  col_fileName :: string
  col_fileSize :: "nat option"
  col_createdAt :: nat
  col_modifiedAt :: nat
  col_tags :: "string list option"

text \<open>The argument of \<^verbatim>\<open>runtime.createTask\<close> in \<^verbatim>\<open>processLocalFile\<close>.\<close>

record task_metadata =
  md_updateInterval :: nat
  md_updatedAt :: nat
  md_fileId :: string
  md_fileName :: string
  md_modifiedAt :: nat

record task =
  task_name :: string
  task_description :: string
  task_tags :: "string list"
  task_metadata :: task_metadata

text \<open>The calls of \<^verbatim>\<open>logger.info\<close> and \<^verbatim>\<open>logger.error\<close>, one constructor per call site.\<close>

datatype log_entry =
    InfoSkippingNonPdf string
  | InfoLocalFileDeleted string
  | InfoAlreadyExists string
  | InfoAddedLocalFile string
  | ErrorFailedToProcess string error
  | ErrorLocalMonitoring error

text \<open>
  The state the handlers act on: the rows of the table (in insertion order), the tasks
  handed to \<^verbatim>\<open>runtime.createTask\<close>, the log, and the paths passed to \<^verbatim>\<open>fs.readFile\<close>.
\<close>

record runtime =
  file_metadata_table :: "file_metadata list"
  tasks :: "task list"
  logged :: "log_entry list"
  readFile_calls :: "string list"

text \<open>
  What the outside world answers during one run of a handler: the file system
  (\<^verbatim>\<open>fs.readFile\<close>, \<^verbatim>\<open>fs.stat(...).size\<close>), the digest
  \<^verbatim>\<open>createHash('md5').update(b).digest('hex')\<close> of \<^verbatim>\<open>node:crypto\<close>, whether the connection
  to the database or the task queue throws, the clock (the \<open>k\<close>-th reading of
  \<^verbatim>\<open>new Date()\<close> or \<^verbatim>\<open>Date.now()\<close> in the run) and the database's \<^verbatim>\<open>now()\<close> used by
  \<^verbatim>\<open>defaultNow()\<close>.
\<close>

record env =
  readFile :: "string \<Rightarrow> error + 8 word list"
  stat_size :: "string \<Rightarrow> error + nat"
  md5_hex :: "8 word list \<Rightarrow> string"
  select_fault :: "error option"
  insert_fault :: "error option"
  createTask_fault :: "error option"
  clock :: "nat \<Rightarrow> nat"
  db_now :: nat

subsection \<open>Strings: \<^verbatim>\<open>endsWith\<close> and \<^verbatim>\<open>split(/[\\/]/).pop() || 'unknown'\<close>\<close>

definition endsWith :: "string \<Rightarrow> string \<Rightarrow> bool" where
  "endsWith s suf = (length suf \<le> length s \<and> drop (length s - length suf) s = suf)"

definition is_sep :: "char \<Rightarrow> bool" where
  "is_sep c = (c = CHR ''/'' \<or> c = CHR 0x5C)"

text \<open>\<^verbatim>\<open>s.split(/[\\/]/)\<close>: the segments between separators; never an empty array.\<close>

fun split_path :: "string \<Rightarrow> string list" where
  "split_path [] = [[]]"
| "split_path (c # cs) =
     (if is_sep c then [] # split_path cs
      else (case split_path cs of
              [] \<Rightarrow> [[c]]
            | seg # segs \<Rightarrow> (c # seg) # segs))"

text \<open>\<^verbatim>\<open>.pop()\<close> takes the last segment; the empty string is falsy, so \<^verbatim>\<open>||\<close> replaces it.\<close>

definition fileNameOf :: "string \<Rightarrow> string" where
  "fileNameOf filePath =
     (case rev (split_path filePath) of
        [] \<Rightarrow> ''unknown''
      | seg # _ \<Rightarrow> if seg = [] then ''unknown'' else seg)"

subsection \<open>The column type \<^verbatim>\<open>uuid\<close>\<close>

text \<open>
  The declaration gives \<^verbatim>\<open>id\<close> the column type \<^verbatim>\<open>uuid\<close>. In TypeScript its values are
  strings; the PostgreSQL server parses the string when a statement binds it and rejects
  the statement when it is not a uuid. The syntax the server accepts: an optional
  opening brace, sixteen pairs of hexadecimal digits, a hyphen allowed after every second
  pair except the last, and the closing brace if there was an opening one.
\<close>

definition is_xdigit :: "char \<Rightarrow> bool" where
  "is_xdigit c = (c \<in> set ''0123456789abcdefABCDEF'')"

text \<open>Pairs \<open>i\<close> to 15 of the digits; the result is what is left of the string.\<close>

function uuid_pairs :: "nat \<Rightarrow> string \<Rightarrow> string option" where
  "uuid_pairs i src =
     (if 16 \<le> i then Some src
      else (case src of
              c1 # c2 # rest \<Rightarrow>
                if is_xdigit c1 \<and> is_xdigit c2
                then uuid_pairs (Suc i)
                       (case rest of
                          [] \<Rightarrow> rest
                        | h # rest' \<Rightarrow>
                            if h = CHR ''-'' \<and> i mod 2 = 1 \<and> i < 15 then rest' else rest)
                else None
            | _ \<Rightarrow> None))"
  by pat_completeness auto
termination
  by (relation "measure (\<lambda>(i, src). 16 - i)") auto

declare uuid_pairs.simps [simp del]

definition is_uuid :: "string \<Rightarrow> bool" where
  "is_uuid s =
     (case s of
        [] \<Rightarrow> False
      | c # rest \<Rightarrow>
          if c = CHR ''{'' then uuid_pairs 0 rest = Some ''}''
          else uuid_pairs 0 s = Some [])"

subsection \<open>Database statements\<close>

text \<open>
  \<^verbatim>\<open>db.select().from(fileMetadataTable).where(eq(fileMetadataTable.hash, hash))\<close>.
\<close>

definition select_by_hash :: "env \<Rightarrow> string \<Rightarrow> runtime \<Rightarrow> error + file_metadata list" where
  "select_by_hash e h s =
     (case select_fault e of
        Some err \<Rightarrow> Inl err
      | None \<Rightarrow> Inr (filter (\<lambda>r. col_hash r = h) (file_metadata_table s)))"

text \<open>
  \<^verbatim>\<open>INSERT ... ON CONFLICT (hash) DO UPDATE SET ... RETURNING *\<close>: a row whose \<^verbatim>\<open>hash\<close>
  equals the new row's is rewritten by the \<^verbatim>\<open>set\<close> clause, otherwise the new row is
  appended. The result is the new table and the rows returned.
\<close>

fun insert_onConflictDoUpdate ::
  "file_metadata \<Rightarrow> (file_metadata \<Rightarrow> file_metadata) \<Rightarrow> file_metadata list
     \<Rightarrow> file_metadata list \<times> file_metadata list" where
  "insert_onConflictDoUpdate v upd [] = ([v], [v])"
| "insert_onConflictDoUpdate v upd (r # rs) =
     (if col_hash r = col_hash v then (upd r # rs, [upd r])
      else (case insert_onConflictDoUpdate v upd rs of
              (rs', returned) \<Rightarrow> (r # rs', returned)))"

text \<open>
  The statement of lines 145 to 164. \<^verbatim>\<open>values\<close> is evaluated before \<^verbatim>\<open>set\<close>, so they
  take the first two readings of the clock. The columns \<^verbatim>\<open>createdAt\<close> and \<^verbatim>\<open>tags\<close> are
  not given: a new row gets \<^verbatim>\<open>now()\<close> and NULL. The key \<^verbatim>\<open>status\<close> names no column of
  the table and is not written. Both \<^verbatim>\<open>values\<close> and \<^verbatim>\<open>set\<close> give \<^verbatim>\<open>fileId\<close> for the column
  \<^verbatim>\<open>id\<close>: when it is not a uuid the server rejects the statement before it touches a row.
\<close>

definition upsert_file_metadata ::
  "env \<Rightarrow> string \<Rightarrow> string \<Rightarrow> string \<Rightarrow> nat \<Rightarrow> runtime
     \<Rightarrow> error + file_metadata list \<times> runtime" where
  "upsert_file_metadata e fileId hash fileName fileSize s =
     (let values =
            \<lparr>col_id = fileId, col_hash = hash, col_fileName = fileName,
             col_fileSize = Some fileSize, col_createdAt = db_now e,
             col_modifiedAt = clock e 0, col_tags = None\<rparr>;
          set_clause = (\<lambda>r. r\<lparr>col_fileName := fileName, col_fileSize := Some fileSize,
                                col_modifiedAt := clock e 1, col_id := fileId\<rparr>)
      in case insert_fault e of
           Some err \<Rightarrow> Inl err
         | None \<Rightarrow>
             if \<not> is_uuid fileId
             then Inl (Error (''invalid input syntax for type uuid: '' @ fileId))
             else
               (case insert_onConflictDoUpdate values set_clause (file_metadata_table s) of
                  (rows, returned) \<Rightarrow> Inr (returned, s\<lparr>file_metadata_table := rows\<rparr>)))"

text \<open>\<^verbatim>\<open>runtime.createTask(t)\<close>: the task is handed over, or the call throws.\<close>

definition createTask :: "env \<Rightarrow> task \<Rightarrow> runtime \<Rightarrow> error + runtime" where
  "createTask e t s =
     (case createTask_fault e of
        Some err \<Rightarrow> Inl err
      | None \<Rightarrow> Inr (s\<lparr>tasks := tasks s @ [t]\<rparr>))"

subsection \<open>\<^verbatim>\<open>processLocalFile\<close> (drive.ts, lines 122 to 184)\<close>

text \<open>The task built at lines 168 to 179; it takes the third and fourth clock readings.\<close>

definition process_pdf_task :: "env \<Rightarrow> string \<Rightarrow> string \<Rightarrow> task" where
  "process_pdf_task e fileId fileName =
     \<lparr>task_name = ''PROCESS_PDF'',
      task_description = ''Convert local PDF to RDF triples'',
      task_tags = [''rdf'', ''graph'', ''process'', ''hypothesis''],
      task_metadata =
        \<lparr>md_updateInterval = 3 * 60 * 1000, md_updatedAt = clock e 2, md_fileId = fileId,
         md_fileName = fileName, md_modifiedAt = clock e 3\<rparr>\<rparr>"

text \<open>
  Lines 166 to 180, the block after the statement: when the statement returned a row, an
  info line is logged and the task is handed to \<^verbatim>\<open>runtime.createTask\<close>.
\<close>

definition processLocalFile_enqueue ::
  "env \<Rightarrow> file_metadata list \<Rightarrow> string \<Rightarrow> string \<Rightarrow> runtime \<Rightarrow> (error + unit) \<times> runtime" where
  "processLocalFile_enqueue e result fileId fileName s2 =
     (if length result > 0
      then
        (let s3 = s2\<lparr>logged := logged s2 @ [InfoAddedLocalFile fileName]\<rparr>
         in case createTask e (process_pdf_task e fileId fileName) s3 of
              Inl err \<Rightarrow> (Inl err, s3)
            | Inr s4 \<Rightarrow> (Inr (), s4))
      else (Inr (), s2))"

text \<open>The body of the \<^verbatim>\<open>try\<close> block: \<open>Inl e\<close> is the error thrown inside it.\<close>

definition processLocalFile_try :: "env \<Rightarrow> string \<Rightarrow> runtime \<Rightarrow> (error + unit) \<times> runtime" where
  "processLocalFile_try e filePath s =
     (let fileName = fileNameOf filePath;
          s1 = s\<lparr>readFile_calls := readFile_calls s @ [filePath]\<rparr>
      in case readFile e filePath of
           Inl err \<Rightarrow> (Inl err, s1)
         | Inr fileBuffer \<Rightarrow>
      (case stat_size e filePath of
           Inl err \<Rightarrow> (Inl err, s1)
         | Inr fileSize \<Rightarrow>
      (let hash = md5_hex e fileBuffer
       in case select_by_hash e hash s1 of
            Inl err \<Rightarrow> (Inl err, s1)
          | Inr fileExists \<Rightarrow>
              if length fileExists > 0
              then (Inr (), s1\<lparr>logged := logged s1 @ [InfoAlreadyExists fileName]\<rparr>)
              else
                (let fileId = ''local_'' @ take 8 hash
                 in case upsert_file_metadata e fileId hash fileName fileSize s1 of
                      Inl err \<Rightarrow> (Inl err, s1)
                    | Inr (result, s2) \<Rightarrow>
                        processLocalFile_enqueue e result fileId fileName s2))))"

text \<open>The \<^verbatim>\<open>catch\<close> clause logs the error and the function returns normally.\<close>

definition processLocalFile :: "env \<Rightarrow> string \<Rightarrow> runtime \<Rightarrow> (error + unit) \<times> runtime" where
  "processLocalFile e filePath s =
     (case processLocalFile_try e filePath s of
        (Inl err, s') \<Rightarrow> (Inr (), s'\<lparr>logged := logged s' @ [ErrorFailedToProcess filePath err]\<rparr>)
      | (Inr u, s') \<Rightarrow> (Inr (), s'))"

subsection \<open>The watcher's handlers (drive.ts, lines 96 to 116)\<close>

definition on_add :: "env \<Rightarrow> string \<Rightarrow> runtime \<Rightarrow> (error + unit) \<times> runtime" where
  "on_add e path s =
     (if \<not> endsWith path ''.pdf''
      then (Inr (), s\<lparr>logged := logged s @ [InfoSkippingNonPdf path]\<rparr>)
      else processLocalFile e path s)"

definition on_change :: "env \<Rightarrow> string \<Rightarrow> runtime \<Rightarrow> (error + unit) \<times> runtime" where
  "on_change e path s =
     (if \<not> endsWith path ''.pdf'' then (Inr (), s) else processLocalFile e path s)"

definition on_unlink :: "env \<Rightarrow> string \<Rightarrow> runtime \<Rightarrow> (error + unit) \<times> runtime" where
  "on_unlink e path s =
     (if \<not> endsWith path ''.pdf'' then (Inr (), s)
      else (let fileName = fileNameOf path
            in (Inr (), s\<lparr>logged := logged s @ [InfoLocalFileDeleted fileName]\<rparr>)))"

definition on_error :: "error \<Rightarrow> runtime \<Rightarrow> (error + unit) \<times> runtime" where
  "on_error err s = (Inr (), s\<lparr>logged := logged s @ [ErrorLocalMonitoring err]\<rparr>)"

text \<open>The events of the watcher and their dispatch to the registered handlers.\<close>

datatype watch_event = Add string | Change string | Unlink string | WatchError error

fun handle :: "env \<Rightarrow> watch_event \<Rightarrow> runtime \<Rightarrow> (error + unit) \<times> runtime" where
  "handle e (Add path) s = on_add e path s"
| "handle e (Change path) s = on_change e path s"
| "handle e (Unlink path) s = on_unlink e path s"
| "handle e (WatchError err) s = on_error err s"

unbundle bit_operations_syntax

subsection \<open>The digest \<^verbatim>\<open>createHash('md5').update(b).digest('hex')\<close>\<close>

text \<open>
  MD5 as RFC 1321 defines it: the message is padded to a multiple of 64 bytes, read as
  little-endian 32-bit words, and each block of 16 words goes through 64 steps on a
  state of four words; the digest is the state, byte by byte, in lower-case hexadecimal.
\<close>

definition md5_shifts :: "nat list" where
  "md5_shifts =
     [7, 12, 17, 22, 7, 12, 17, 22, 7, 12, 17, 22, 7, 12, 17, 22,
      5, 9, 14, 20, 5, 9, 14, 20, 5, 9, 14, 20, 5, 9, 14, 20,
      4, 11, 16, 23, 4, 11, 16, 23, 4, 11, 16, 23, 4, 11, 16, 23,
      6, 10, 15, 21, 6, 10, 15, 21, 6, 10, 15, 21, 6, 10, 15, 21]"

definition md5_sines :: "32 word list" where
  "md5_sines =
     [0xd76aa478, 0xe8c7b756, 0x242070db, 0xc1bdceee, 0xf57c0faf, 0x4787c62a,
      0xa8304613, 0xfd469501, 0x698098d8, 0x8b44f7af, 0xffff5bb1, 0x895cd7be,
      0x6b901122, 0xfd987193, 0xa679438e, 0x49b40821, 0xf61e2562, 0xc040b340,
      0x265e5a51, 0xe9b6c7aa, 0xd62f105d, 0x02441453, 0xd8a1e681, 0xe7d3fbc8,
      0x21e1cde6, 0xc33707d6, 0xf4d50d87, 0x455a14ed, 0xa9e3e905, 0xfcefa3f8,
      0x676f02d9, 0x8d2a4c8a, 0xfffa3942, 0x8771f681, 0x6d9d6122, 0xfde5380c,
      0xa4beea44, 0x4bdecfa9, 0xf6bb4b60, 0xbebfbc70, 0x289b7ec6, 0xeaa127fa,
      0xd4ef3085, 0x04881d05, 0xd9d4d039, 0xe6db99e5, 0x1fa27cf8, 0xc4ac5665,
      0xf4292244, 0x432aff97, 0xab9423a7, 0xfc93a039, 0x655b59c3, 0x8f0ccc92,
      0xffeff47d, 0x85845dd1, 0x6fa87e4f, 0xfe2ce6e0, 0xa3014314, 0x4e0811a1,
      0xf7537e82, 0xbd3af235, 0x2ad7d2bb, 0xeb86d391]"

definition rotl32 :: "nat \<Rightarrow> 32 word \<Rightarrow> 32 word" where
  "rotl32 s x = push_bit s x OR drop_bit (32 - s) x"

fun md5_step :: "32 word list \<Rightarrow> nat \<Rightarrow> 32 word \<times> 32 word \<times> 32 word \<times> 32 word
    \<Rightarrow> 32 word \<times> 32 word \<times> 32 word \<times> 32 word" where
  "md5_step m i (a, b, c, d) =
     (let f = (if i < 16 then (b AND c) OR (NOT b AND d)
               else if i < 32 then (d AND b) OR (NOT d AND c)
               else if i < 48 then b XOR c XOR d
               else c XOR (b OR NOT d));
          g = (if i < 16 then i
               else if i < 32 then (5 * i + 1) mod 16
               else if i < 48 then (3 * i + 5) mod 16
               else (7 * i) mod 16)
      in (d, b + rotl32 (md5_shifts ! i) (f + a + md5_sines ! i + m ! g), b, c))"

fun md5_block :: "32 word \<times> 32 word \<times> 32 word \<times> 32 word \<Rightarrow> 32 word list
    \<Rightarrow> 32 word \<times> 32 word \<times> 32 word \<times> 32 word" where
  "md5_block (a0, b0, c0, d0) m =
     (case fold (md5_step m) [0..<64] (a0, b0, c0, d0) of
        (a, b, c, d) \<Rightarrow> (a0 + a, b0 + b, c0 + c, d0 + d))"

fun le_bytes :: "nat \<Rightarrow> nat \<Rightarrow> 8 word list" where
  "le_bytes 0 n = []"
| "le_bytes (Suc k) n = of_nat (n mod 256) # le_bytes k (n div 256)"

definition md5_pad :: "8 word list \<Rightarrow> 8 word list" where
  "md5_pad msg =
     msg @ [0x80] @ replicate ((119 - length msg mod 64) mod 64) 0 @ le_bytes 8 (8 * length msg)"

fun le_words :: "8 word list \<Rightarrow> 32 word list" where
  "le_words (b0 # b1 # b2 # b3 # bs) =
     (ucast b0 OR push_bit 8 (ucast b1) OR push_bit 16 (ucast b2) OR push_bit 24 (ucast b3))
       # le_words bs"
| "le_words bs = []"

fun md5_blocks :: "nat \<Rightarrow> 32 word \<times> 32 word \<times> 32 word \<times> 32 word \<Rightarrow> 32 word list
    \<Rightarrow> 32 word \<times> 32 word \<times> 32 word \<times> 32 word" where
  "md5_blocks 0 st ws = st"
| "md5_blocks (Suc n) st ws = md5_blocks n (md5_block st (take 16 ws)) (drop 16 ws)"

definition hex_byte :: "8 word \<Rightarrow> string" where
  "hex_byte b = [''0123456789abcdef'' ! (unat b div 16), ''0123456789abcdef'' ! (unat b mod 16)]"

definition hex_word_le :: "32 word \<Rightarrow> string" where
  "hex_word_le w =
     hex_byte (ucast w) @ hex_byte (ucast (drop_bit 8 w)) @
     hex_byte (ucast (drop_bit 16 w)) @ hex_byte (ucast (drop_bit 24 w))"

definition md5_digest_hex :: "8 word list \<Rightarrow> string" where
  "md5_digest_hex msg =
     (case md5_blocks (length (md5_pad msg) div 64)
             (0x67452301, 0xefcdab89, 0x98badcfe, 0x10325476) (le_words (md5_pad msg)) of
        (a, b, c, d) \<Rightarrow> hex_word_le a @ hex_word_le b @ hex_word_le c @ hex_word_le d)"

subsection \<open>Concrete inputs\<close>

text \<open>
  Two sync operations on a runtime that only counts the calls made so far: one that
  always throws (with a message telling the calls apart) and one that throws twice and
  then succeeds.
\<close>

definition always_down :: "nat \<Rightarrow> (error + string) \<times> nat" where
  "always_down w =
     (Inl (Error (if w = 0 then ''first'' else if w = 1 then ''second'' else ''later'')), Suc w)"

definition flaky :: "nat \<Rightarrow> (error + string) \<times> nat" where
  "flaky w = (if w < 2 then Inl (Error ''down'') else Inr ''synced'', Suc w)"

text \<open>
  A watched folder with one file of four bytes, \<^verbatim>\<open>/watch/paper.pdf\<close>, and a copy of it
  under another name; the digest is MD5 itself, and neither the database connection nor
  the queue fails. \<open>later_env\<close> is the same folder at a later time.
\<close>

definition pdf_bytes :: "8 word list" where
  "pdf_bytes = [0x25, 0x50, 0x44, 0x46]"

definition sample_env :: env where
  "sample_env =
     \<lparr>readFile = (\<lambda>p. if p = ''/watch/paper.pdf'' \<or> p = ''/watch/renamed.pdf''
                      then Inr pdf_bytes else Inl (Error ''ENOENT'')),
      stat_size = (\<lambda>p. if p = ''/watch/paper.pdf'' \<or> p = ''/watch/renamed.pdf''
                       then Inr 4 else Inl (Error ''ENOENT'')),
      md5_hex = md5_digest_hex,
      select_fault = None, insert_fault = None, createTask_fault = None,
      clock = (\<lambda>k. 5000 + k), db_now = 4990\<rparr>"

definition later_env :: env where
  "later_env = sample_env\<lparr>clock := (\<lambda>k. 9000 + k), db_now := 8990\<rparr>"

definition empty_runtime :: runtime where
  "empty_runtime = \<lparr>file_metadata_table = [], tasks = [], logged = [], readFile_calls = []\<rparr>"

text \<open>
  The file processed twice, starting from an empty table: once as \<^verbatim>\<open>paper.pdf\<close>, then,
  after that run has finished, as \<^verbatim>\<open>renamed.pdf\<close>.
\<close>

definition first_sighting :: runtime where
  "first_sighting = snd (processLocalFile sample_env ''/watch/paper.pdf'' empty_runtime)"

definition second_sighting :: runtime where
  "second_sighting = snd (processLocalFile later_env ''/watch/renamed.pdf'' first_sighting)"

text \<open>
  A table that already holds the file's content, as another writer of the table leaves
  it: the \<^verbatim>\<open>id\<close> is a uuid and the \<^verbatim>\<open>hash\<close> is the MD5 digest of the four bytes. \<open>resighted\<close>
  is the runtime after the copy \<^verbatim>\<open>renamed.pdf\<close> has been processed on it.
\<close>

definition seeded_row :: file_metadata where
  "seeded_row =
     \<lparr>col_id = ''3f2b8c1e-5d4a-4e6f-9a7b-0c1d2e3f4a5b'',
      col_hash = ''bfa4b10a76324b166cfdad5e02a63730'',
      col_fileName = ''paper.pdf'', col_fileSize = Some 4, col_createdAt = 1000,
      col_modifiedAt = 1000, col_tags = None\<rparr>"

definition seeded_runtime :: runtime where
  "seeded_runtime =
     \<lparr>file_metadata_table = [seeded_row], tasks = [], logged = [], readFile_calls = []\<rparr>"

definition resighted :: runtime where
  "resighted = snd (processLocalFile sample_env ''/watch/renamed.pdf'' seeded_runtime)"

section \<open>Properties of \<^verbatim>\<open>syncWithRetry\<close>\<close>

subsection \<open>One round of the loop\<close>

lemma syncLoop_exit:
  "\<not> int attempts < maxRetries \<Longrightarrow>
   syncLoop sync maxRetries attempts w tr = (Inr Undefined, w, tr)"
  by (subst syncLoop.simps) simp

lemma syncLoop_success:
  "int attempts < maxRetries \<Longrightarrow> sync w = (Inr r, w') \<Longrightarrow>
   syncLoop sync maxRetries attempts w tr =
     (Inr Undefined, w', tr @ [SyncCall, LogSyncCompleted r])"
  by (subst syncLoop.simps) simp

lemma syncLoop_last_failure:
  "int attempts < maxRetries \<Longrightarrow> sync w = (Inl err, w') \<Longrightarrow>
   int (Suc attempts) = maxRetries \<Longrightarrow>
   syncLoop sync maxRetries attempts w tr =
     (Inl err, w', tr @ [SyncCall, LogAttemptFailed (Suc attempts) err, LogMaxRetriesReached])"
  by (subst syncLoop.simps) simp

lemma syncLoop_retry:
  "int attempts < maxRetries \<Longrightarrow> sync w = (Inl err, w') \<Longrightarrow>
   int (Suc attempts) \<noteq> maxRetries \<Longrightarrow>
   syncLoop sync maxRetries attempts w tr =
     syncLoop sync maxRetries (Suc attempts) w'
       (tr @ [SyncCall, LogAttemptFailed (Suc attempts) err, Sleep (1000 * 2 ^ Suc attempts)])"
  by (subst syncLoop.simps) (simp add: Let_def)

text \<open>Two failed attempts out of three: the state of the loop before the third call.\<close>

lemma syncLoop_two_failures:
  assumes "sync w0 = (Inl e1, w1)" and "sync w1 = (Inl e2, w2)"
  shows "syncLoop sync 3 0 w0 [] =
           syncLoop sync 3 (Suc (Suc 0)) w2
             [SyncCall, LogAttemptFailed (Suc 0) e1, Sleep (1000 * 2 ^ Suc 0),
              SyncCall, LogAttemptFailed (Suc (Suc 0)) e2, Sleep (1000 * 2 ^ Suc (Suc 0))]"
proof -
  have "syncLoop sync 3 0 w0 [] =
          syncLoop sync 3 (Suc 0) w1
            [SyncCall, LogAttemptFailed (Suc 0) e1, Sleep (1000 * 2 ^ Suc 0)]"
    using assms(1) by (subst syncLoop_retry [where err = e1 and w' = w1]) simp_all
  also have "\<dots> = syncLoop sync 3 (Suc (Suc 0)) w2
          [SyncCall, LogAttemptFailed (Suc 0) e1, Sleep (1000 * 2 ^ Suc 0),
           SyncCall, LogAttemptFailed (Suc (Suc 0)) e2, Sleep (1000 * 2 ^ Suc (Suc 0))]"
    using assms(2) by (subst syncLoop_retry [where err = e2 and w' = w2]) simp_all
  finally show ?thesis .
qed

subsection \<open>An operation that always fails, for any number of attempts\<close>

text \<open>
  With \<open>maxRetries = n > 0\<close> the runner calls a failing operation \<open>n\<close> times, asks the
  timer for \<open>1000 * 2 ^ i\<close> ms after attempt \<open>i\<close> (for \<open>i\<close> from 1 to \<open>n - 1\<close>) and throws.
\<close>

lemma delays_append: "delays (xs @ ys) = delays xs @ delays ys"
  by (induction xs rule: delays.induct) simp_all

lemma invocations_append: "invocations (xs @ ys) = invocations xs + invocations ys"
  by (simp add: invocations_def)

lemma syncLoop_all_fail:
  shows "\<forall>w. isl (fst (sync w)) \<Longrightarrow> int attempts < maxRetries \<Longrightarrow>
         \<exists>err w' tr'. syncLoop sync maxRetries attempts w tr = (Inl err, w', tr @ tr') \<and>
            invocations tr' = nat maxRetries - attempts \<and>
            delays tr' = map (\<lambda>i. 1000 * 2 ^ i) [Suc attempts ..< nat maxRetries]"
proof (induction sync maxRetries attempts w tr rule: syncLoop.induct)
  case (1 sync maxRetries attempts w tr)
  note fails = "1.prems"(1) and lt = "1.prems"(2)
  obtain out w' where sw: "sync w = (out, w')" by (cases "sync w")
  with fails obtain err where out: "out = Inl err" by (cases out) (auto dest: spec [of _ w])
  show ?case
  proof (cases "int (Suc attempts) = maxRetries")
    case True
    then have "nat maxRetries = Suc attempts" by auto
    with syncLoop_last_failure [OF lt _ True, of sync w err w' tr] sw out
    show ?thesis by (simp add: invocations_def)
  next
    case False
    with lt have lt': "int (Suc attempts) < maxRetries" by simp
    let ?step = "[SyncCall, LogAttemptFailed (Suc attempts) err, Sleep (1000 * 2 ^ Suc attempts)]"
    from "1.IH" [OF lt sw [symmetric] out refl refl _ fails] False lt'
    obtain err' w'' tr'' where
      rec: "syncLoop sync maxRetries (Suc attempts) w' (tr @ ?step) = (Inl err', w'', (tr @ ?step) @ tr'')"
      and inv: "invocations tr'' = nat maxRetries - Suc attempts"
      and del: "delays tr'' = map (\<lambda>i. 1000 * 2 ^ i) [Suc (Suc attempts) ..< nat maxRetries]"
      by auto
    from lt' have "Suc attempts < nat maxRetries" by simp
    then have upt: "[Suc attempts ..< nat maxRetries] = Suc attempts # [Suc (Suc attempts) ..< nat maxRetries]"
      by (simp add: upt_conv_Cons)
    have "syncLoop sync maxRetries attempts w tr = (Inl err', w'', tr @ (?step @ tr''))"
      using syncLoop_retry [OF lt _ False, of sync w err w' tr] sw out rec by simp
    moreover have "invocations (?step @ tr'') = nat maxRetries - attempts"
      using inv \<open>Suc attempts < nat maxRetries\<close> by (simp add: invocations_def)
    moreover have "delays (?step @ tr'') = map (\<lambda>i. 1000 * 2 ^ i) [Suc attempts ..< nat maxRetries]"
      using del upt by simp
    ultimately show ?thesis by blast
  qed
qed

lemma syncWithRetry_all_fail:
  assumes "\<And>w. isl (fst (sync w))" and "0 < n"
  shows "\<exists>err w' tr. syncWithRetry sync (int n) w = (Inl err, w', tr) \<and>
            invocations tr = n \<and> delays tr = map (\<lambda>i. 1000 * 2 ^ i) [1 ..< n]"
  using syncLoop_all_fail [of sync 0 "int n" w "[]"] assms
  by (auto simp: syncWithRetry_def)

subsection \<open>Claim C3: the retry bound\<close>

text \<open>
  C3. When the wrapped operation fails on each of its calls, \<open>syncWithRetry\<close> with
  \<open>maxRetries = 3\<close> calls it exactly three times, asks the timer for
  \<open>1000 * 2 ^ 1 = 2000\<close> ms after the first attempt and \<open>1000 * 2 ^ 2 = 4000\<close> ms after the
  second (at least 1000 ms and 2000 ms), and then throws the error of the third attempt.
  The whole sequence of effects is given.
\<close>

theorem syncWithRetry_always_failing:
  assumes "sync w0 = (Inl e1, w1)" and "sync w1 = (Inl e2, w2)" and "sync w2 = (Inl e3, w3)"
  shows "\<exists>tr. syncWithRetry sync 3 w0 = (Inl e3, w3, tr) \<and>
           tr = [SyncCall, LogAttemptFailed 1 e1, Sleep 2000,
                 SyncCall, LogAttemptFailed 2 e2, Sleep 4000,
                 SyncCall, LogAttemptFailed 3 e3, LogMaxRetriesReached] \<and>
           invocations tr = 3 \<and>
           delays tr = [1000 * 2 ^ 1, 1000 * 2 ^ 2] \<and>
           1000 \<le> delays tr ! 0 \<and> 2000 \<le> delays tr ! 1"
proof -
  have "syncWithRetry sync 3 w0 =
          syncLoop sync 3 (Suc (Suc 0)) w2
            [SyncCall, LogAttemptFailed (Suc 0) e1, Sleep (1000 * 2 ^ Suc 0),
             SyncCall, LogAttemptFailed (Suc (Suc 0)) e2, Sleep (1000 * 2 ^ Suc (Suc 0))]"
    unfolding syncWithRetry_def using assms(1,2) by (rule syncLoop_two_failures)
  also have "\<dots> = (Inl e3, w3,
          [SyncCall, LogAttemptFailed (Suc 0) e1, Sleep (1000 * 2 ^ Suc 0),
           SyncCall, LogAttemptFailed (Suc (Suc 0)) e2, Sleep (1000 * 2 ^ Suc (Suc 0)),
           SyncCall, LogAttemptFailed (Suc (Suc (Suc 0))) e3, LogMaxRetriesReached])"
    using assms(3) by (subst syncLoop_last_failure [where err = e3 and w' = w3]) simp_all
  finally show ?thesis
    by (simp add: numeral_2_eq_2 numeral_3_eq_3 invocations_def)
qed

theorem syncWithRetry_always_failing_witness:
  "fst (syncWithRetry always_down 3 0) = Inl (Error ''later'') \<and>
   invocations (snd (snd (syncWithRetry always_down 3 0))) = 3 \<and>
   delays (snd (snd (syncWithRetry always_down 3 0))) = [2000, 4000]"
proof -
  have 1: "always_down 0 = (Inl (Error ''first''), 1)"
    and 2: "always_down 1 = (Inl (Error ''second''), 2)"
    and 3: "always_down 2 = (Inl (Error ''later''), 3)"
    by (simp_all add: always_down_def)
  from syncWithRetry_always_failing [OF 1 2 3] show ?thesis by auto
qed

subsection \<open>Claim C4: recovery on the third attempt\<close>

text \<open>
  C4, as the code has it. When the wrapped operation fails twice and then succeeds with
  \<open>r\<close>, \<open>syncWithRetry\<close> with \<open>maxRetries = 3\<close> does not throw and makes no fourth call;
  the result \<open>r\<close> goes to the log only, and the caller receives \<^verbatim>\<open>undefined\<close> (the function
  is declared \<^verbatim>\<open>Promise<void>\<close> and ends the attempt with a bare \<^verbatim>\<open>return;\<close>).
\<close>

theorem syncWithRetry_recovers:
  assumes "sync w0 = (Inl e1, w1)" and "sync w1 = (Inl e2, w2)" and "sync w2 = (Inr r, w3)"
  shows "\<exists>tr. syncWithRetry sync 3 w0 = (Inr Undefined, w3, tr) \<and>
           tr = [SyncCall, LogAttemptFailed 1 e1, Sleep 2000,
                 SyncCall, LogAttemptFailed 2 e2, Sleep 4000,
                 SyncCall, LogSyncCompleted r] \<and>
           invocations tr = 3"
proof -
  have "syncWithRetry sync 3 w0 =
          syncLoop sync 3 (Suc (Suc 0)) w2
            [SyncCall, LogAttemptFailed (Suc 0) e1, Sleep (1000 * 2 ^ Suc 0),
             SyncCall, LogAttemptFailed (Suc (Suc 0)) e2, Sleep (1000 * 2 ^ Suc (Suc 0))]"
    unfolding syncWithRetry_def using assms(1,2) by (rule syncLoop_two_failures)
  also have "\<dots> = (Inr Undefined, w3,
          [SyncCall, LogAttemptFailed (Suc 0) e1, Sleep (1000 * 2 ^ Suc 0),
           SyncCall, LogAttemptFailed (Suc (Suc 0)) e2, Sleep (1000 * 2 ^ Suc (Suc 0)),
           SyncCall, LogSyncCompleted r])"
    using assms(3) by (subst syncLoop_success [where r = r and w' = w3]) simp_all
  finally show ?thesis
    by (simp add: numeral_2_eq_2 invocations_def)
qed

theorem syncWithRetry_recovers_witness:
  "syncWithRetry flaky 3 0 =
     (Inr Undefined, 3,
      [SyncCall, LogAttemptFailed 1 (Error ''down''), Sleep 2000,
       SyncCall, LogAttemptFailed 2 (Error ''down''), Sleep 4000,
       SyncCall, LogSyncCompleted ''synced''])"
proof -
  have 1: "flaky 0 = (Inl (Error ''down''), 1)"
    and 2: "flaky 1 = (Inl (Error ''down''), 2)"
    and 3: "flaky 2 = (Inr ''synced'', 3)"
    by (simp_all add: flaky_def)
  from syncWithRetry_recovers [OF 1 2 3] show ?thesis by auto
qed

text \<open>
  The claim as it is written fails: \<open>flaky\<close> succeeds with \<open>''synced''\<close> on its third call,
  and the caller of \<open>syncWithRetry\<close> does not receive that value.
\<close>

theorem syncWithRetry_result_not_returned:
  "fst (syncWithRetry flaky 3 0) \<noteq> Inr (Val ''synced'')"
  by (simp add: syncWithRetry_def syncLoop.simps flaky_def)

subsection \<open>Claim C10: no attempt at all\<close>

text \<open>Whenever \<open>syncWithRetry\<close> returns normally, the value returned is \<^verbatim>\<open>undefined\<close>.\<close>

lemma syncLoop_returns_undefined:
  "fst (syncLoop sync maxRetries attempts w tr) = Inr v \<Longrightarrow> v = Undefined"
proof (induction sync maxRetries attempts w tr rule: syncLoop.induct)
  case (1 sync maxRetries attempts w tr)
  show ?case
  proof (cases "int attempts < maxRetries")
    case False
    with "1.prems" show ?thesis by (simp add: syncLoop_exit)
  next
    case True
    obtain out w' where sw: "sync w = (out, w')" by (cases "sync w")
    show ?thesis
    proof (cases out)
      case (Inr r)
      with True sw "1.prems" show ?thesis by (simp add: syncLoop_success)
    next
      case (Inl err)
      show ?thesis
      proof (cases "int (Suc attempts) = maxRetries")
        case last: True
        from syncLoop_last_failure [OF True _ last, of sync w err w' tr] sw Inl "1.prems"
        show ?thesis by simp
      next
        case more: False
        from syncLoop_retry [OF True _ more, of sync w err w' tr] sw Inl "1.prems"
        have "fst (syncLoop sync maxRetries (Suc attempts) w'
                (tr @ [SyncCall, LogAttemptFailed (Suc attempts) err, Sleep (1000 * 2 ^ Suc attempts)])) = Inr v"
          by simp
        with "1.IH" [OF True sw [symmetric] _ refl refl] Inl more show ?thesis by simp
      qed
    qed
  qed
qed

text \<open>
  C10. For \<open>maxRetries \<le> 0\<close> the loop condition is false at once: \<open>syncWithRetry\<close> returns
  normally with \<^verbatim>\<open>undefined\<close>, has not called the wrapped operation (no effect at all, the
  runtime is untouched) and has thrown nothing. Every run that returns normally, a
  successful sync included, hands the caller the same value, so the caller cannot tell
  the two apart.
\<close>

theorem syncWithRetry_no_attempts:
  assumes "maxRetries \<le> 0"
  shows "syncWithRetry sync maxRetries w = (Inr Undefined, w, []) \<and>
         invocations (snd (snd (syncWithRetry sync maxRetries w))) = 0 \<and>
         (\<forall>m w0 v. fst (syncWithRetry sync m w0) = Inr v \<longrightarrow>
            fst (syncWithRetry sync m w0) = fst (syncWithRetry sync maxRetries w))"
proof -
  have exit: "syncWithRetry sync maxRetries w = (Inr Undefined, w, [])"
    unfolding syncWithRetry_def using assms by (intro syncLoop_exit) simp
  have "v = Undefined" if "fst (syncWithRetry sync m w0) = Inr v" for m w0 v
    using that unfolding syncWithRetry_def by (rule syncLoop_returns_undefined)
  with exit show ?thesis by (auto simp: invocations_def)
qed

theorem syncWithRetry_no_attempts_witness:
  "syncWithRetry always_down 0 0 = (Inr Undefined, 0, []) \<and>
   syncWithRetry always_down (- 2) 0 = (Inr Undefined, 0, []) \<and>
   fst (syncWithRetry flaky 3 0) = fst (syncWithRetry flaky 0 5)"
proof -
  have a: "(0::int) \<le> 0" and b: "(- 2::int) \<le> 0" by simp_all
  have c: "fst (syncWithRetry flaky 3 0) = Inr Undefined"
    by (simp add: syncWithRetry_def syncLoop.simps flaky_def)
  from syncWithRetry_no_attempts [OF a, of always_down 0]
    syncWithRetry_no_attempts [OF b, of always_down 0]
    syncWithRetry_no_attempts [OF a, of flaky 5] c
  show ?thesis by metis
qed

section \<open>Properties of the local-folder pipeline\<close>

subsection \<open>The digest and the uuid syntax on sample values\<close>

text \<open>Two digests, as any MD5 implementation gives them.\<close>

lemma md5_digest_hex_empty: "md5_digest_hex [] = ''d41d8cd98f00b204e9800998ecf8427e''"
  by code_simp

lemma md5_digest_hex_pdf_bytes:
  "md5_digest_hex pdf_bytes = ''bfa4b10a76324b166cfdad5e02a63730''"
  by code_simp

text \<open>
  No string that starts with \<^verbatim>\<open>local_\<close> is a uuid: its first character is neither a
  brace nor a hexadecimal digit.
\<close>

lemma local_id_not_uuid: "\<not> is_uuid (''local_'' @ x)"
  by (simp add: is_uuid_def uuid_pairs.simps [of 0] is_xdigit_def)

lemma seeded_id_is_uuid: "is_uuid (col_id seeded_row)"
  by code_simp

lemma braced_uuid: "is_uuid ''{3F2B8C1E5D4A-4E6F9A7B0C1D2E3F4A5B}''"
  by code_simp

lemma not_uuid_examples:
  "\<not> is_uuid ''3f2b8c1e-5d4a-4e6f-9a7b-0c1d2e3f4a5''"
  "\<not> is_uuid ''3f2b8c1e-5d4a-4e6f-9a7b-0c1d2e3f4a5b-''"
  "\<not> is_uuid ''3f2-b8c1e5d4a4e6f9a7b0c1d2e3f4a5b''"
  "\<not> is_uuid ''local_bfa4b10a''"
  "\<not> is_uuid []"
  by code_simp+

subsection \<open>The statements on the table\<close>

lemma insert_fresh:
  "h \<notin> col_hash ` set rs \<Longrightarrow> col_hash v = h \<Longrightarrow>
   insert_onConflictDoUpdate v upd rs = (rs @ [v], [v])"
  by (induction rs) auto

lemma insert_conflict:
  "distinct (map col_hash rs) \<Longrightarrow> col_hash v \<in> col_hash ` set rs \<Longrightarrow>
   fst (insert_onConflictDoUpdate v upd rs) =
     map (\<lambda>r. if col_hash r = col_hash v then upd r else r) rs"
proof (induction rs)
  case Nil
  then show ?case by simp
next
  case (Cons r rs)
  show ?case
  proof (cases "col_hash r = col_hash v")
    case True
    with Cons.prems have "col_hash v \<notin> col_hash ` set rs" by simp
    then have "\<forall>x \<in> set rs. col_hash x \<noteq> col_hash v" by (metis imageI)
    then have "map (\<lambda>r. if col_hash r = col_hash v then upd r else r) rs = rs"
      by (induction rs) auto
    with True show ?thesis by simp
  next
    case False
    with Cons show ?thesis by (auto split: prod.splits)
  qed
qed

lemma select_known:
  "select_fault e = None \<Longrightarrow> r \<in> set (file_metadata_table s) \<Longrightarrow> col_hash r = h \<Longrightarrow>
   \<exists>rows. select_by_hash e h s = Inr rows \<and> 0 < length rows"
  by (auto simp: select_by_hash_def filter_empty_conv)

lemma select_fresh:
  "select_fault e = None \<Longrightarrow> h \<notin> col_hash ` set (file_metadata_table s) \<Longrightarrow>
   select_by_hash e h s = Inr []"
  by (auto simp: select_by_hash_def filter_empty_conv)

text \<open>
  With the id that \<open>processLocalFile\<close> builds, \<^verbatim>\<open>local_\<close> and eight characters of the hash,
  the statement is rejected whatever the table holds.
\<close>

lemma upsert_rejects_local_id:
  "upsert_file_metadata e (''local_'' @ take 8 h) h fileName fileSize s =
     Inl (case insert_fault e of
            Some err \<Rightarrow> err
          | None \<Rightarrow> Error (''invalid input syntax for type uuid: local_'' @ take 8 h))"
  by (simp add: upsert_file_metadata_def Let_def local_id_not_uuid [simplified] split: option.split)

text \<open>
  With a well-formed uuid the statement does what \<^verbatim>\<open>ON CONFLICT (hash) DO UPDATE\<close> says:
  the row with the hash gets the four fields of the \<^verbatim>\<open>set\<close> clause, or a new row is
  appended.
\<close>

lemma upsert_with_uuid_frame:
  assumes "insert_fault e = None" and "is_uuid fileId"
    and "distinct (map col_hash (file_metadata_table s))"
  shows "\<exists>returned s'.
           upsert_file_metadata e fileId h fileName fileSize s = Inr (returned, s') \<and>
           tasks s' = tasks s \<and> logged s' = logged s \<and> readFile_calls s' = readFile_calls s \<and>
           (if h \<in> col_hash ` set (file_metadata_table s)
            then file_metadata_table s' =
                   map (\<lambda>r. if col_hash r = h
                             then r\<lparr>col_fileName := fileName, col_fileSize := Some fileSize,
                                    col_modifiedAt := clock e 1, col_id := fileId\<rparr>
                             else r)
                       (file_metadata_table s)
            else file_metadata_table s' =
                   file_metadata_table s @
                     [\<lparr>col_id = fileId, col_hash = h, col_fileName = fileName,
                       col_fileSize = Some fileSize, col_createdAt = db_now e,
                       col_modifiedAt = clock e 0, col_tags = None\<rparr>])"
proof (cases "h \<in> col_hash ` set (file_metadata_table s)")
  case True
  let ?v = "\<lparr>col_id = fileId, col_hash = h, col_fileName = fileName,
             col_fileSize = Some fileSize, col_createdAt = db_now e,
             col_modifiedAt = clock e 0, col_tags = None\<rparr>"
  let ?upd = "\<lambda>r. r\<lparr>col_fileName := fileName, col_fileSize := Some fileSize,
                      col_modifiedAt := clock e 1, col_id := fileId\<rparr>"
  let ?f = "\<lambda>r. if col_hash r = h then ?upd r else r"
  from True have "col_hash ?v \<in> col_hash ` set (file_metadata_table s)" by simp
  from insert_conflict [OF assms(3) this, of ?upd]
  have tab: "fst (insert_onConflictDoUpdate ?v ?upd (file_metadata_table s)) =
               map ?f (file_metadata_table s)" by simp
  obtain rows returned where
    ins: "insert_onConflictDoUpdate ?v ?upd (file_metadata_table s) = (rows, returned)"
    by (cases "insert_onConflictDoUpdate ?v ?upd (file_metadata_table s)")
  with tab have rows: "rows = map ?f (file_metadata_table s)" by simp
  have "upsert_file_metadata e fileId h fileName fileSize s =
          Inr (returned, s\<lparr>file_metadata_table := rows\<rparr>)"
    using assms(1,2) ins by (simp add: upsert_file_metadata_def Let_def)
  with True rows show ?thesis by simp
next
  case False
  with assms(1,2) show ?thesis
    by (simp add: upsert_file_metadata_def Let_def insert_fresh)
qed

subsection \<open>One run of \<^verbatim>\<open>processLocalFile\<close>\<close>

text \<open>The \<^verbatim>\<open>catch\<close> clause only adds to the log, and the function returns normally.\<close>

lemma processLocalFile_fields:
  "file_metadata_table (snd (processLocalFile e p s)) = file_metadata_table (snd (processLocalFile_try e p s))"
  "tasks (snd (processLocalFile e p s)) = tasks (snd (processLocalFile_try e p s))"
  "readFile_calls (snd (processLocalFile e p s)) = readFile_calls (snd (processLocalFile_try e p s))"
  by (auto simp: processLocalFile_def split: prod.splits sum.splits)

lemma processLocalFile_outcome: "fst (processLocalFile e p s) = Inr ()"
  by (simp add: processLocalFile_def split: prod.split sum.split)

text \<open>Content that is already in the table: the table and the tasks stay as they are.\<close>

lemma try_known:
  assumes "r \<in> set (file_metadata_table s)" and "readFile e p = Inr b" and "md5_hex e b = col_hash r"
  shows "file_metadata_table (snd (processLocalFile_try e p s)) = file_metadata_table s \<and>
         tasks (snd (processLocalFile_try e p s)) = tasks s"
proof (cases "select_fault e")
  case None
  have "r \<in> set (file_metadata_table (s\<lparr>readFile_calls := readFile_calls s @ [p]\<rparr>))"
    using assms(1) by simp
  from select_known [OF None this refl]
  obtain rows where "select_by_hash e (col_hash r) (s\<lparr>readFile_calls := readFile_calls s @ [p]\<rparr>) = Inr rows"
    and "0 < length rows" by blast
  then show ?thesis using assms
    by (simp add: processLocalFile_try_def Let_def split: sum.splits)
next
  case (Some err)
  then show ?thesis using assms
    by (simp add: processLocalFile_try_def Let_def select_by_hash_def split: sum.splits)
qed

text \<open>
  No run changes the table or hands over a task: either the run ends before the
  statement, or the statement is rejected.
\<close>

lemma try_stores_nothing:
  "file_metadata_table (snd (processLocalFile_try e p s)) = file_metadata_table s \<and>
   tasks (snd (processLocalFile_try e p s)) = tasks s"
  by (simp add: processLocalFile_try_def Let_def upsert_rejects_local_id [simplified]
      split: sum.split)

lemma processLocalFile_stores_nothing:
  "file_metadata_table (snd (processLocalFile e p s)) = file_metadata_table s \<and>
   tasks (snd (processLocalFile e p s)) = tasks s"
  by (simp add: processLocalFile_fields try_stores_nothing)

text \<open>New content, with nothing failing before the statement: the rejection is what is logged.\<close>

lemma new_content_is_rejected:
  assumes "readFile e p = Inr b" and "stat_size e p = Inr n" and "select_fault e = None"
    and "insert_fault e = None" and "md5_hex e b = h"
    and "h \<notin> col_hash ` set (file_metadata_table s)"
  shows "processLocalFile e p s =
           (Inr (),
            s\<lparr>readFile_calls := readFile_calls s @ [p],
              logged := logged s @
                [ErrorFailedToProcess p
                   (Error (''invalid input syntax for type uuid: local_'' @ take 8 h))]\<rparr>)"
proof -
  have "select_by_hash e h (s\<lparr>readFile_calls := readFile_calls s @ [p]\<rparr>) = Inr []"
    using assms(3,6) by (intro select_fresh) simp_all
  with assms show ?thesis
    by (simp add: processLocalFile_def processLocalFile_try_def Let_def
        upsert_rejects_local_id [simplified])
qed

text \<open>The sample runs, evaluated.\<close>

lemma sample_env_reads:
  "readFile sample_env ''/watch/paper.pdf'' = Inr pdf_bytes"
  "readFile sample_env ''/watch/renamed.pdf'' = Inr pdf_bytes"
  "readFile sample_env ''/watch/missing.pdf'' = Inl (Error ''ENOENT'')"
  "stat_size sample_env ''/watch/paper.pdf'' = Inr 4"
  "stat_size sample_env ''/watch/renamed.pdf'' = Inr 4"
  "md5_hex sample_env pdf_bytes = ''bfa4b10a76324b166cfdad5e02a63730''"
  "select_fault sample_env = None" "insert_fault sample_env = None"
  "createTask_fault sample_env = None"
  by (simp_all add: sample_env_def md5_digest_hex_pdf_bytes)

lemma later_env_reads:
  "readFile later_env ''/watch/renamed.pdf'' = Inr pdf_bytes"
  "stat_size later_env ''/watch/renamed.pdf'' = Inr 4"
  "md5_hex later_env pdf_bytes = ''bfa4b10a76324b166cfdad5e02a63730''"
  "select_fault later_env = None" "insert_fault later_env = None"
  by (simp_all add: later_env_def sample_env_def md5_digest_hex_pdf_bytes)

lemma first_sighting_eq:
  "first_sighting =
     \<lparr>file_metadata_table = [], tasks = [],
      logged = [ErrorFailedToProcess ''/watch/paper.pdf''
                  (Error ''invalid input syntax for type uuid: local_bfa4b10a'')],
      readFile_calls = [''/watch/paper.pdf'']\<rparr>"
  unfolding first_sighting_def
  by (subst new_content_is_rejected [where b = pdf_bytes and n = 4
        and h = "''bfa4b10a76324b166cfdad5e02a63730''"])
     (simp_all add: sample_env_reads empty_runtime_def)

lemma second_sighting_eq:
  "second_sighting =
     \<lparr>file_metadata_table = [], tasks = [],
      logged = [ErrorFailedToProcess ''/watch/paper.pdf''
                  (Error ''invalid input syntax for type uuid: local_bfa4b10a''),
                ErrorFailedToProcess ''/watch/renamed.pdf''
                  (Error ''invalid input syntax for type uuid: local_bfa4b10a'')],
      readFile_calls = [''/watch/paper.pdf'', ''/watch/renamed.pdf'']\<rparr>"
  unfolding second_sighting_def
  by (subst new_content_is_rejected [where b = pdf_bytes and n = 4
        and h = "''bfa4b10a76324b166cfdad5e02a63730''"])
     (simp_all add: later_env_reads first_sighting_eq)

lemma resighted_eq:
  "resighted =
     seeded_runtime\<lparr>readFile_calls := [''/watch/renamed.pdf''],
                    logged := [InfoAlreadyExists ''renamed.pdf'']\<rparr>"
  by (simp add: resighted_def processLocalFile_def processLocalFile_try_def Let_def
      sample_env_reads select_by_hash_def seeded_runtime_def seeded_row_def
      fileNameOf_def is_sep_def)

subsection \<open>Claim C1: ingesting the same content twice\<close>

text \<open>
  C1, the code on a folder with one file. The claim asks that two sightings of the same
  bytes leave exactly one row with their hash, and a task for the first. The file
  \<^verbatim>\<open>/watch/paper.pdf\<close> is processed on an empty table, and its bytes once more as
  \<^verbatim>\<open>/watch/renamed.pdf\<close>; the file system, the connection and the queue do not fail. Both
  runs build the id \<^verbatim>\<open>local_bfa4b10a\<close>, both statements are rejected by the \<^verbatim>\<open>uuid\<close> column,
  and afterwards the table holds no row with the hash, no task has been handed over, and
  the log holds the two errors.
\<close>

theorem two_sightings_store_nothing:
  "file_metadata_table second_sighting = [] \<and>
   length (filter (\<lambda>r. col_hash r = md5_digest_hex pdf_bytes)
             (file_metadata_table second_sighting)) = 0 \<and>
   tasks second_sighting = [] \<and>
   logged second_sighting =
     [ErrorFailedToProcess ''/watch/paper.pdf''
        (Error ''invalid input syntax for type uuid: local_bfa4b10a''),
      ErrorFailedToProcess ''/watch/renamed.pdf''
        (Error ''invalid input syntax for type uuid: local_bfa4b10a'')]"
  by (simp add: second_sighting_eq)

subsection \<open>Claim C2: the same content under another name\<close>

text \<open>
  C2, as the code has it. When a row with the digest of the event's bytes is already
  stored, \<open>processLocalFile\<close> skips the event whatever its file name is: the table is left
  exactly as it was (the row keeps its \<^verbatim>\<open>fileName\<close> and \<^verbatim>\<open>modifiedAt\<close> as well as its
  \<^verbatim>\<open>hash\<close> and \<^verbatim>\<open>createdAt\<close>, and no second row appears), no task is handed over, and
  when \<^verbatim>\<open>stat\<close> and the lookup succeed the only effects are the file read and the log
  line \<^verbatim>\<open>already exists, skipping\<close>.
\<close>

theorem resighting_is_skipped:
  assumes "r \<in> set (file_metadata_table s)"
    and "readFile e p = Inr b" and "md5_hex e b = col_hash r"
  shows "fst (processLocalFile e p s) = Inr () \<and>
         file_metadata_table (snd (processLocalFile e p s)) = file_metadata_table s \<and>
         r \<in> set (file_metadata_table (snd (processLocalFile e p s))) \<and>
         tasks (snd (processLocalFile e p s)) = tasks s \<and>
         (\<forall>n. stat_size e p = Inr n \<and> select_fault e = None \<longrightarrow>
            snd (processLocalFile e p s) =
              s\<lparr>readFile_calls := readFile_calls s @ [p],
                logged := logged s @ [InfoAlreadyExists (fileNameOf p)]\<rparr>)"
proof -
  from try_known [OF assms]
  have same: "file_metadata_table (snd (processLocalFile e p s)) = file_metadata_table s"
    "tasks (snd (processLocalFile e p s)) = tasks s"
    by (simp_all add: processLocalFile_fields)
  have exact: "snd (processLocalFile e p s) =
      s\<lparr>readFile_calls := readFile_calls s @ [p],
        logged := logged s @ [InfoAlreadyExists (fileNameOf p)]\<rparr>"
    if "stat_size e p = Inr n" and sel: "select_fault e = None" for n
  proof -
    have "r \<in> set (file_metadata_table (s\<lparr>readFile_calls := readFile_calls s @ [p]\<rparr>))"
      using assms(1) by simp
    from select_known [OF sel this refl] obtain rows where
      "select_by_hash e (col_hash r) (s\<lparr>readFile_calls := readFile_calls s @ [p]\<rparr>) = Inr rows"
      and "0 < length rows" by blast
    with assms that show ?thesis
      by (simp add: processLocalFile_def processLocalFile_try_def Let_def)
  qed
  from same exact assms(1) show ?thesis by (simp add: processLocalFile_outcome)
qed

theorem resighting_is_skipped_witness:
  "file_metadata_table resighted = [seeded_row] \<and> tasks resighted = [] \<and>
   resighted = seeded_runtime\<lparr>readFile_calls := [''/watch/renamed.pdf''],
                              logged := [InfoAlreadyExists ''renamed.pdf'']\<rparr>"
proof -
  have "seeded_row \<in> set (file_metadata_table seeded_runtime)"
    and "readFile sample_env ''/watch/renamed.pdf'' = Inr pdf_bytes"
    and "md5_hex sample_env pdf_bytes = col_hash seeded_row"
    by (simp_all add: seeded_runtime_def seeded_row_def sample_env_reads)
  from resighting_is_skipped [OF this]
  have "file_metadata_table resighted = file_metadata_table seeded_runtime"
    and "tasks resighted = tasks seeded_runtime"
    and "resighted = seeded_runtime\<lparr>readFile_calls := readFile_calls seeded_runtime @ [''/watch/renamed.pdf''],
           logged := logged seeded_runtime @ [InfoAlreadyExists (fileNameOf ''/watch/renamed.pdf'')]\<rparr>"
    unfolding resighted_def using sample_env_reads(5,7) by blast+
  then show ?thesis
    by (simp add: seeded_runtime_def fileNameOf_def is_sep_def)
qed

text \<open>
  The claim as it is written fails: with \<^verbatim>\<open>paper.pdf\<close> stored at time 1000, the same
  bytes arriving as \<^verbatim>\<open>renamed.pdf\<close> at time 5000 leave the stored name and modification
  time untouched.
\<close>

theorem resighting_keeps_old_name:
  "map col_fileName (file_metadata_table resighted) \<noteq> [''renamed.pdf''] \<and>
   map col_fileName (file_metadata_table resighted) = [''paper.pdf''] \<and>
   map col_modifiedAt (file_metadata_table resighted) = [1000] \<and>
   clock sample_env 0 = 5000"
  by (simp add: resighted_eq seeded_runtime_def seeded_row_def sample_env_def)

subsection \<open>Claim C5: what the upsert statement changes\<close>

text \<open>
  C5, the code on the table as declared. The claim asks that the statement of lines 145
  to 164 inserts a row when the hash is new and updates four fields of the row when it is
  stored. As \<open>processLocalFile\<close> issues it for the sample file, with the id
  \<^verbatim>\<open>local_bfa4b10a\<close>, the statement is rejected on the empty table and on the table that
  holds the hash alike: nothing is inserted and nothing is updated.
\<close>

theorem upsert_statement_is_rejected:
  "upsert_file_metadata sample_env ''local_bfa4b10a'' ''bfa4b10a76324b166cfdad5e02a63730''
     ''paper.pdf'' 4 (empty_runtime\<lparr>readFile_calls := [''/watch/paper.pdf'']\<rparr>) =
     Inl (Error ''invalid input syntax for type uuid: local_bfa4b10a'') \<and>
   upsert_file_metadata sample_env ''local_bfa4b10a'' ''bfa4b10a76324b166cfdad5e02a63730''
     ''renamed.pdf'' 4 seeded_runtime =
     Inl (Error ''invalid input syntax for type uuid: local_bfa4b10a'')"
  using upsert_rejects_local_id [of sample_env "''bfa4b10a76324b166cfdad5e02a63730''"]
  by (simp add: sample_env_reads)

subsection \<open>Claim C6: files that are not PDFs\<close>

text \<open>
  The handlers test the path; the file name (its last segment) ends in \<^verbatim>\<open>.pdf\<close> exactly
  when the path does.
\<close>

lemma split_path_not_Nil: "split_path p \<noteq> []"
  by (induction p) (auto split: list.splits)

lemma split_path_no_sep: "\<forall>c \<in> set p. \<not> is_sep c \<Longrightarrow> split_path p = [p]"
  by (induction p) auto

lemma endsWith_Cons:
  "suf \<noteq> [] \<Longrightarrow> endsWith (c # cs) suf = (suf = c # cs \<or> endsWith cs suf)"
  by (auto simp: endsWith_def Suc_diff_le not_less_eq_eq le_Suc_eq)

lemma endsWith_last_segment:
  assumes "suf \<noteq> []" and "\<forall>c \<in> set suf. \<not> is_sep c"
  shows "endsWith (last (split_path p)) suf = endsWith p suf"
proof (induction p)
  case Nil
  then show ?case by simp
next
  case (Cons c cs)
  show ?case
  proof (cases "is_sep c")
    case True
    with assms have "suf \<noteq> c # cs" by auto
    with True Cons assms(1) show ?thesis
      by (simp add: endsWith_Cons split_path_not_Nil)
  next
    case False
    obtain seg segs where sp: "split_path cs = seg # segs"
      using split_path_not_Nil [of cs] by (cases "split_path cs") auto
    show ?thesis
    proof (cases "suf = c # cs")
      case True
      with assms(2) have "\<forall>x \<in> set cs. \<not> is_sep x" by auto
      then have "split_path cs = [cs]" by (rule split_path_no_sep)
      with False True assms(1) show ?thesis by (simp add: endsWith_Cons)
    next
      case neq: False
      show ?thesis
      proof (cases segs)
        case Nil
        with sp Cons have ih: "endsWith seg suf = endsWith cs suf" by simp
        have "suf \<noteq> c # seg"
        proof
          assume eq: "suf = c # seg"
          with assms(2) have "\<forall>x \<in> set seg. \<not> is_sep x" by auto
          have "seg = cs"
          proof -
            have "\<And>s. split_path cs = [s] \<Longrightarrow> \<forall>x \<in> set s. \<not> is_sep x \<Longrightarrow> s = cs"
            proof (induction cs)
              case Nil
              then show ?case by simp
            next
              case (Cons a as)
              then show ?case
                by (auto split: if_splits list.splits simp: split_path_not_Nil)
            qed
            with sp Nil \<open>\<forall>x \<in> set seg. \<not> is_sep x\<close> show ?thesis by simp
          qed
          with eq neq show False by simp
        qed
        with False sp Nil ih neq assms(1) show ?thesis by (simp add: endsWith_Cons)
      next
        case (Cons a as)
        with False sp Cons.IH neq assms(1) show ?thesis by (simp add: endsWith_Cons)
      qed
    qed
  qed
qed

lemma endsWith_fileNameOf: "endsWith (fileNameOf path) ''.pdf'' = endsWith path ''.pdf''"
proof -
  have seps: "\<forall>c \<in> set ''.pdf''. \<not> is_sep c" by (simp add: is_sep_def)
  have last: "endsWith (last (split_path path)) ''.pdf'' = endsWith path ''.pdf''"
    by (rule endsWith_last_segment [OF _ seps]) simp
  have "fileNameOf path = (if last (split_path path) = [] then ''unknown'' else last (split_path path))"
    using split_path_not_Nil [of path]
    by (cases "split_path path" rule: rev_cases) (simp_all add: fileNameOf_def)
  moreover have "\<not> endsWith ''unknown'' ''.pdf''" and "\<not> endsWith [] ''.pdf''"
    by (simp_all add: endsWith_def)
  ultimately show ?thesis using last by (auto split: if_splits)
qed

text \<open>
  C6. For an \<^verbatim>\<open>add\<close> or \<^verbatim>\<open>change\<close> event whose file name does not end in \<^verbatim>\<open>.pdf\<close>, the
  handler returns normally without reading the file, without touching the table and
  without handing over a task. The \<^verbatim>\<open>change\<close> handler leaves the runtime as it is; the
  \<^verbatim>\<open>add\<close> handler writes one info line to the log and nothing else.
\<close>

theorem extension_filter:
  assumes "\<not> endsWith (fileNameOf path) ''.pdf''"
  shows "handle e (Add path) s = (Inr (), s\<lparr>logged := logged s @ [InfoSkippingNonPdf path]\<rparr>) \<and>
         handle e (Change path) s = (Inr (), s) \<and>
         (\<forall>ev \<in> {Add path, Change path}.
            fst (handle e ev s) = Inr () \<and>
            readFile_calls (snd (handle e ev s)) = readFile_calls s \<and>
            file_metadata_table (snd (handle e ev s)) = file_metadata_table s \<and>
            tasks (snd (handle e ev s)) = tasks s)"
  using assms by (simp add: on_add_def on_change_def endsWith_fileNameOf)

theorem extension_filter_witness:
  "\<not> endsWith (fileNameOf ''/watch/notes.txt'') ''.pdf'' \<and>
   handle sample_env (Add ''/watch/notes.txt'') seeded_runtime =
     (Inr (), seeded_runtime\<lparr>logged := logged seeded_runtime @
                                 [InfoSkippingNonPdf ''/watch/notes.txt'']\<rparr>) \<and>
   handle sample_env (Change ''/watch/notes.txt'') seeded_runtime = (Inr (), seeded_runtime)"
proof -
  have h: "\<not> endsWith (fileNameOf ''/watch/notes.txt'') ''.pdf''"
    by (simp add: endsWith_def fileNameOf_def is_sep_def)
  from h extension_filter [OF h, of sample_env seeded_runtime] show ?thesis by simp
qed

subsection \<open>Claim C7: deleted files\<close>

text \<open>
  C7. The \<^verbatim>\<open>unlink\<close> handler returns normally and leaves the table, the tasks and the
  file system reads as they are, whatever has been ingested before; for a PDF it writes
  one info line to the log, otherwise nothing.
\<close>

theorem unlink_keeps_records:
  "fst (handle e (Unlink path) s) = Inr () \<and>
   file_metadata_table (snd (handle e (Unlink path) s)) = file_metadata_table s \<and>
   tasks (snd (handle e (Unlink path) s)) = tasks s \<and>
   readFile_calls (snd (handle e (Unlink path) s)) = readFile_calls s \<and>
   logged (snd (handle e (Unlink path) s)) =
     (if endsWith path ''.pdf'' then logged s @ [InfoLocalFileDeleted (fileNameOf path)]
      else logged s)"
  by (simp add: on_unlink_def Let_def)

theorem unlink_keeps_records_witness:
  "file_metadata_table (snd (handle sample_env (Unlink ''/watch/paper.pdf'') seeded_runtime)) =
     [seeded_row] \<and>
   tasks (snd (handle sample_env (Unlink ''/watch/paper.pdf'') seeded_runtime)) = [] \<and>
   logged (snd (handle sample_env (Unlink ''/watch/paper.pdf'') seeded_runtime)) =
     [InfoLocalFileDeleted ''paper.pdf'']"
proof -
  have "endsWith ''/watch/paper.pdf'' ''.pdf''" by (simp add: endsWith_def)
  moreover have "fileNameOf ''/watch/paper.pdf'' = ''paper.pdf''"
    by (simp add: fileNameOf_def is_sep_def)
  ultimately show ?thesis
    using unlink_keeps_records [of sample_env "''/watch/paper.pdf''" seeded_runtime]
    by (simp add: seeded_runtime_def)
qed

subsection \<open>Claim C8: the task handed over\<close>




subsection \<open>Claim C9: a fault in one file\<close>

text \<open>
  C9. \<open>processLocalFile\<close> never throws: whatever goes wrong inside the \<^verbatim>\<open>try\<close> block, the
  caller sees a normal return, and the error is appended to the log. In particular a
  file that cannot be read leaves only the read attempt and the log line, and so does a
  write that the database rejects.
\<close>

theorem processLocalFile_never_throws:
  "fst (processLocalFile e p s) = Inr () \<and>
   (\<forall>err s'. processLocalFile_try e p s = (Inl err, s') \<longrightarrow>
      snd (processLocalFile e p s) = s'\<lparr>logged := logged s' @ [ErrorFailedToProcess p err]\<rparr>) \<and>
   (\<forall>err. readFile e p = Inl err \<longrightarrow>
      snd (processLocalFile e p s) =
        s\<lparr>readFile_calls := readFile_calls s @ [p],
          logged := logged s @ [ErrorFailedToProcess p err]\<rparr>) \<and>
   (\<forall>err b n. readFile e p = Inr b \<and> stat_size e p = Inr n \<and> select_fault e = None \<and>
       md5_hex e b \<notin> col_hash ` set (file_metadata_table s) \<and> insert_fault e = Some err \<longrightarrow>
      snd (processLocalFile e p s) =
        s\<lparr>readFile_calls := readFile_calls s @ [p],
          logged := logged s @ [ErrorFailedToProcess p err]\<rparr>)"
proof -
  have thrown: "snd (processLocalFile e p s) = s'\<lparr>logged := logged s' @ [ErrorFailedToProcess p err]\<rparr>"
    if "processLocalFile_try e p s = (Inl err, s')" for err s'
    using that by (simp add: processLocalFile_def)
  have read: "processLocalFile_try e p s = (Inl err, s\<lparr>readFile_calls := readFile_calls s @ [p]\<rparr>)"
    if "readFile e p = Inl err" for err
    using that by (simp add: processLocalFile_try_def Let_def)
  have store: "processLocalFile_try e p s = (Inl err, s\<lparr>readFile_calls := readFile_calls s @ [p]\<rparr>)"
    if "readFile e p = Inr b" and "stat_size e p = Inr n" and sel: "select_fault e = None"
      and fresh: "md5_hex e b \<notin> col_hash ` set (file_metadata_table s)"
      and "insert_fault e = Some err" for err b n
  proof -
    have "select_by_hash e (md5_hex e b) (s\<lparr>readFile_calls := readFile_calls s @ [p]\<rparr>) = Inr []"
      using sel fresh by (intro select_fresh) simp_all
    with that show ?thesis
      by (simp add: processLocalFile_try_def Let_def upsert_file_metadata_def)
  qed
  show ?thesis
    using thrown read store by (simp add: processLocalFile_outcome)
qed

theorem processLocalFile_never_throws_witness:
  "processLocalFile sample_env ''/watch/missing.pdf'' seeded_runtime =
     (Inr (), seeded_runtime\<lparr>readFile_calls := readFile_calls seeded_runtime @ [''/watch/missing.pdf''],
        logged := logged seeded_runtime @ [ErrorFailedToProcess ''/watch/missing.pdf'' (Error ''ENOENT'')]\<rparr>) \<and>
   processLocalFile (sample_env\<lparr>insert_fault := Some (Error ''connection refused'')\<rparr>)
       ''/watch/paper.pdf'' empty_runtime =
     (Inr (), empty_runtime\<lparr>readFile_calls := [''/watch/paper.pdf''],
        logged := [ErrorFailedToProcess ''/watch/paper.pdf'' (Error ''connection refused'')]\<rparr>)"
proof -
  let ?down = "sample_env\<lparr>insert_fault := Some (Error ''connection refused'')\<rparr>"
  have r: "readFile sample_env ''/watch/missing.pdf'' = Inl (Error ''ENOENT'')"
    by (simp add: sample_env_def)
  have w: "readFile ?down ''/watch/paper.pdf'' = Inr pdf_bytes \<and>
           stat_size ?down ''/watch/paper.pdf'' = Inr 4 \<and> select_fault ?down = None \<and>
           md5_hex ?down pdf_bytes \<notin> col_hash ` set (file_metadata_table empty_runtime) \<and>
           insert_fault ?down = Some (Error ''connection refused'')"
    by (simp add: sample_env_def empty_runtime_def)
  from processLocalFile_never_throws [of sample_env "''/watch/missing.pdf''" seeded_runtime] r
  have 1: "processLocalFile sample_env ''/watch/missing.pdf'' seeded_runtime =
     (Inr (), seeded_runtime\<lparr>readFile_calls := readFile_calls seeded_runtime @ [''/watch/missing.pdf''],
        logged := logged seeded_runtime @ [ErrorFailedToProcess ''/watch/missing.pdf'' (Error ''ENOENT'')]\<rparr>)"
    by (metis prod.collapse)
  from processLocalFile_never_throws [of ?down "''/watch/paper.pdf''" empty_runtime] w
  have 2: "processLocalFile ?down ''/watch/paper.pdf'' empty_runtime =
     (Inr (), empty_runtime\<lparr>readFile_calls := readFile_calls empty_runtime @ [''/watch/paper.pdf''],
        logged := logged empty_runtime @ [ErrorFailedToProcess ''/watch/paper.pdf'' (Error ''connection refused'')]\<rparr>)"
    by (metis prod.collapse)
  from 1 2 show ?thesis by (simp add: empty_runtime_def)
qed

end
